theory Spec2Isabelle
  imports Main "HOL-Library.Word" "HOL-Library.Sublist"
begin

section \<open>JavaScript values that flow through the application\<close>

text \<open>
  A JavaScript string is a sequence of UTF-16 code units. The values that can sit in the
  posts array are modelled by a small universe: \<open>undefined\<close>, strings, and plain objects
  given by their own properties in insertion order. No value of this universe is callable.
\<close>

type_synonym jsstring = "16 word list"

datatype jsval =
    JUndefined
  | JString jsstring
  | JObject "(string \<times> jsval) list"

datatype error =
    TypeError
  | Error string

definition utf16 :: "string \<Rightarrow> jsstring" where
  \<comment> \<open>the code units of a source literal made of ASCII characters\<close>
  "utf16 s = map (\<lambda>c. word_of_nat (of_char c)) s"

fun Get :: "jsval \<Rightarrow> string \<Rightarrow> error + jsval" where
  \<comment> \<open>property read \<open>v.P\<close>, for the two names the application reads (\<open>title\<close>, \<open>body\<close>):
      reading from \<open>undefined\<close> throws, a string has neither property, an object
      yields its own property or \<open>undefined\<close>\<close>
  "Get JUndefined P = Inl TypeError"
| "Get (JString s) P = Inr JUndefined"
| "Get (JObject props) P = Inr (case map_of props P of None \<Rightarrow> JUndefined | Some v \<Rightarrow> v)"

fun ToString :: "jsval \<Rightarrow> error + jsstring" where
  \<comment> \<open>the conversion a template literal applies to each substitution; a plain object
      without an own \<open>toString\<close> gets \<open>Object.prototype.toString\<close>, one whose own
      \<open>toString\<close> is not callable has no primitive value\<close>
  "ToString JUndefined = Inr (utf16 ''undefined'')"
| "ToString (JString s) = Inr s"
| "ToString (JObject props) =
     (if ''toString'' \<in> set (map fst props) then Inl TypeError
      else Inr (utf16 ''[object Object]''))"

section \<open>String search\<close>

definition StringIndexOf :: "jsstring \<Rightarrow> jsstring \<Rightarrow> nat \<Rightarrow> nat option" where
  \<comment> \<open>the first index \<open>i \<ge> fromIndex\<close> at which \<open>searchValue\<close> occurs in \<open>string\<close>\<close>
  "StringIndexOf string searchValue fromIndex =
     (if searchValue = [] \<and> fromIndex \<le> length string then Some fromIndex
      else find (\<lambda>i. take (length searchValue) (drop i string) = searchValue)
             [fromIndex ..< Suc (length string) - length searchValue])"

definition includes_js :: "jsstring \<Rightarrow> jsstring \<Rightarrow> bool" where
  \<comment> \<open>\<open>string.includes(searchString)\<close>, position 0\<close>
  "includes_js string searchString = (StringIndexOf string searchString 0 \<noteq> None)"

section \<open>Posts\<close>

definition mkPost :: "jsstring \<Rightarrow> jsstring \<Rightarrow> jsval" where
  \<comment> \<open>the object literal \<open>{ title: t, body: b }\<close>\<close>
  "mkPost t b = JObject [(''title'', JString t), (''body'', JString b)]"

fun isPost :: "jsval \<Rightarrow> bool" where
  \<comment> \<open>a flat record with exactly the two string fields \<open>title\<close> and \<open>body\<close>\<close>
  "isPost (JObject [(k1, JString t), (k2, JString b)]) = (k1 = ''title'' \<and> k2 = ''body'')"
| "isPost _ = False"

record hacker =
  adjective :: jsstring
  noun :: jsstring
  phrase :: jsstring

text \<open>
  The faker library is outside the repository: one call of \<open>createRandomPost\<close> draws an
  adjective, a noun and a phrase from it, and the draw is a parameter here.
\<close>

definition createRandomPost :: "hacker \<Rightarrow> jsval" where
  "createRandomPost faker =
     JObject [(''title'', JString (adjective faker @ utf16 '' '' @ noun faker)),
              (''body'', JString (phrase faker))]"

section \<open>The derived list\<close>

definition postText :: "jsval \<Rightarrow> error + jsstring" where
  \<comment> \<open>the template literal that joins \<open>post.title\<close>, one space and \<open>post.body\<close>\<close>
  "postText post =
     (case Get post ''title'' of Inl e \<Rightarrow> Inl e | Inr t \<Rightarrow>
      case ToString t of Inl e \<Rightarrow> Inl e | Inr ts \<Rightarrow>
      case Get post ''body'' of Inl e \<Rightarrow> Inl e | Inr b \<Rightarrow>
      case ToString b of Inl e \<Rightarrow> Inl e | Inr bs \<Rightarrow>
      Inr (ts @ utf16 '' '' @ bs))"

fun filter_js :: "('a \<Rightarrow> error + bool) \<Rightarrow> 'a list \<Rightarrow> error + 'a list" where
  \<comment> \<open>\<open>Array.prototype.filter\<close>: elements in ascending index order, the first callback
      that throws ends the call\<close>
  "filter_js f [] = Inr []"
| "filter_js f (x # xs) =
     (case f x of Inl e \<Rightarrow> Inl e | Inr keep \<Rightarrow>
      case filter_js f xs of Inl e \<Rightarrow> Inl e | Inr ys \<Rightarrow>
      Inr (if keep then x # ys else ys))"

text \<open>
  \<open>String.prototype.toLowerCase\<close> follows the Unicode case tables, which are not part of
  the repository; it is a parameter of the model.
\<close>

definition searchedPosts ::
  "(jsstring \<Rightarrow> jsstring) \<Rightarrow> jsval list \<Rightarrow> jsstring \<Rightarrow> error + jsval list" where
  "searchedPosts toLowerCase posts searchQuery =
     (if length searchQuery > 0
      then filter_js
             (\<lambda>post. case postText post of Inl e \<Rightarrow> Inl e | Inr s \<Rightarrow>
                Inr (includes_js (toLowerCase s) (toLowerCase searchQuery)))
             posts
      else Inr posts)"

definition toLowerCaseASCII :: "jsstring \<Rightarrow> jsstring" where
  \<comment> \<open>what the built-in does on strings of ASCII code units\<close>
  "toLowerCaseASCII s = map (\<lambda>c. if 0x41 \<le> c \<and> c \<le> 0x5A then c + 0x20 else c) s"

section \<open>State of the components\<close>

text \<open>
  \<open>PostProvider\<close> holds the posts and the search query; \<open>App\<close> holds the same two pieces
  of state and the dark-mode flag, with the same handlers. Each \<open>useState\<close> pair is a record
  field and its setter; a setter is given the function from the current to the next value.
\<close>

record post_state =
  posts :: "jsval list"
  searchQuery :: jsstring

record app_state = post_state +
  isFakeDark :: bool

definition setPosts :: "(jsval list \<Rightarrow> jsval list) \<Rightarrow> 'a post_state_scheme \<Rightarrow> 'a post_state_scheme" where
  "setPosts f s = s\<lparr>posts := f (posts s)\<rparr>"

definition setSearchQuery :: "jsstring \<Rightarrow> 'a post_state_scheme \<Rightarrow> 'a post_state_scheme" where
  "setSearchQuery v s = s\<lparr>searchQuery := v\<rparr>"

definition setIsFakeDark :: "(bool \<Rightarrow> bool) \<Rightarrow> app_state \<Rightarrow> app_state" where
  "setIsFakeDark f s = s\<lparr>isFakeDark := f (isFakeDark s)\<rparr>"

definition handleAddPost :: "jsval \<Rightarrow> 'a post_state_scheme \<Rightarrow> 'a post_state_scheme" where
  "handleAddPost post = setPosts (\<lambda>ps. post # ps)"

definition handleClearPosts :: "'a post_state_scheme \<Rightarrow> 'a post_state_scheme" where
  "handleClearPosts = setPosts (\<lambda>_. [])"

definition initialPosts :: "(nat \<Rightarrow> hacker) \<Rightarrow> jsval list" where
  \<comment> \<open>\<open>Array.from({ length: 30 }, () => createRandomPost())\<close>; \<open>faker i\<close> is the draw of
      the call for index \<open>i\<close>\<close>
  "initialPosts faker = map (\<lambda>i. createRandomPost (faker i)) [0 ..< 30]"

definition PostProvider_init :: "(nat \<Rightarrow> hacker) \<Rightarrow> post_state" where
  "PostProvider_init faker = \<lparr>posts = initialPosts faker, searchQuery = []\<rparr>"

definition App_init :: "(nat \<Rightarrow> hacker) \<Rightarrow> app_state" where
  "App_init faker = \<lparr>posts = initialPosts faker, searchQuery = [], isFakeDark = False\<rparr>"

subsection \<open>The form\<close>

record form_state =
  title :: jsstring
  body :: jsstring

definition FormAddPost_init :: form_state where
  "FormAddPost_init = \<lparr>title = [], body = []\<rparr>"

definition setTitle :: "jsstring \<Rightarrow> form_state \<Rightarrow> form_state" where
  "setTitle v f = f\<lparr>title := v\<rparr>"

definition setBody :: "jsstring \<Rightarrow> form_state \<Rightarrow> form_state" where
  "setBody v f = f\<lparr>body := v\<rparr>"

definition handleSubmit :: "(jsval \<Rightarrow> 'p \<Rightarrow> 'p) \<Rightarrow> form_state \<times> 'p \<Rightarrow> form_state \<times> 'p" where
  \<comment> \<open>the form's own state and the state of the component that owns \<open>onAddPost\<close>;
      a string is falsy exactly when it is empty\<close>
  "handleSubmit onAddPost = (\<lambda>(f, p).
     if body f = [] \<or> title f = [] then (f, p)
     else (setBody [] (setTitle [] f), onAddPost (mkPost (title f) (body f)) p))"

subsection \<open>The archive\<close>

record archive_state =
  archive_posts :: "jsval list"
  showArchive :: bool

definition Archive_init :: "(nat \<Rightarrow> hacker) \<Rightarrow> archive_state" where
  \<comment> \<open>30000 generated posts; \<open>archiveOptions.show\<close> is \<open>false\<close>\<close>
  "Archive_init faker =
     \<lparr>archive_posts = map (\<lambda>i. createRandomPost (faker i)) [0 ..< 30000], showArchive = False\<rparr>"

definition setShowArchive :: "(bool \<Rightarrow> bool) \<Rightarrow> archive_state \<Rightarrow> archive_state" where
  "setShowArchive f a = a\<lparr>showArchive := f (showArchive a)\<rparr>"

subsection \<open>The whole page and its events\<close>

record ui_state =
  app :: app_state
  form :: form_state
  archive :: archive_state

definition init :: "(nat \<Rightarrow> hacker) \<Rightarrow> (nat \<Rightarrow> hacker) \<Rightarrow> ui_state" where
  "init faker faker' = \<lparr>app = App_init faker, form = FormAddPost_init, archive = Archive_init faker'\<rparr>"

datatype event =
    ClickFakeDark
  | ChangeSearch jsstring
  | ClickClearPosts
  | ChangeTitle jsstring
  | ChangeBody jsstring
  | SubmitForm
  | ClickShowArchive
  | ClickAddAsNewPost nat

fun step :: "event \<Rightarrow> ui_state \<Rightarrow> ui_state" where
  "step ClickFakeDark u = u\<lparr>app := setIsFakeDark (\<lambda>isFakeDark. \<not> isFakeDark) (app u)\<rparr>"
| "step (ChangeSearch v) u = u\<lparr>app := setSearchQuery v (app u)\<rparr>"
| "step ClickClearPosts u = u\<lparr>app := handleClearPosts (app u)\<rparr>"
| "step (ChangeTitle v) u = u\<lparr>form := setTitle v (form u)\<rparr>"
| "step (ChangeBody v) u = u\<lparr>form := setBody v (form u)\<rparr>"
| "step SubmitForm u =
     (case handleSubmit handleAddPost (form u, app u) of (f, a) \<Rightarrow> u\<lparr>app := a, form := f\<rparr>)"
| "step ClickShowArchive u = u\<lparr>archive := setShowArchive (\<lambda>s. \<not> s) (archive u)\<rparr>"
| "step (ClickAddAsNewPost i) u =
     \<comment> \<open>the button of the \<open>i\<close>-th archive entry exists only while the archive is shown\<close>
     (if showArchive (archive u) \<and> i < length (archive_posts (archive u))
      then u\<lparr>app := handleAddPost (archive_posts (archive u) ! i) (app u)\<rparr>
      else u)"

definition run :: "event list \<Rightarrow> ui_state \<Rightarrow> ui_state" where
  "run es u = fold step es u"

definition displayed :: "(jsstring \<Rightarrow> jsstring) \<Rightarrow> ui_state \<Rightarrow> error + jsval list" where
  \<comment> \<open>the list \<open>App\<close> hands to \<open>Header\<close> and \<open>Main\<close> on a render\<close>
  "displayed toLowerCase u = searchedPosts toLowerCase (posts (app u)) (searchQuery (app u))"

subsection \<open>The context\<close>

record context_value =
  ctx_posts :: "jsval list"
  onAddPost :: "jsval \<Rightarrow> post_state \<Rightarrow> post_state"
  onClearPosts :: "post_state \<Rightarrow> post_state"
  ctx_searchQuery :: jsstring
  ctx_setSearchQuery :: "jsstring \<Rightarrow> post_state \<Rightarrow> post_state"

definition PostProvider_value :: "(jsstring \<Rightarrow> jsstring) \<Rightarrow> post_state \<Rightarrow> error + context_value" where
  \<comment> \<open>the object \<open>PostProvider\<close> passes to \<open>PostContext.Provider\<close> on a render\<close>
  "PostProvider_value toLowerCase s =
     (case searchedPosts toLowerCase (posts s) (searchQuery s) of
        Inl e \<Rightarrow> Inl e
      | Inr found \<Rightarrow>
          Inr \<lparr>ctx_posts = found, onAddPost = handleAddPost, onClearPosts = handleClearPosts,
               ctx_searchQuery = searchQuery s, ctx_setSearchQuery = setSearchQuery\<rparr>)"

definition usePosts :: "'v option \<Rightarrow> error + 'v" where
  \<comment> \<open>\<open>context\<close> is what \<open>useContext(PostContext)\<close> returned: the value of the nearest
      provider, or \<open>undefined\<close> (\<open>None\<close>), the default of \<open>createContext()\<close>, without one\<close>
  "usePosts context =
     (case context of
        None \<Rightarrow> Inl (Error ''PostContext was used outside of the PostProvider'')
      | Some v \<Rightarrow> Inr v)"

section \<open>The filtered list as the specification words it\<close>

definition spec_searchedPosts ::
  "(jsstring \<Rightarrow> jsstring) \<Rightarrow> (jsstring \<times> jsstring) list \<Rightarrow> jsstring \<Rightarrow> (jsstring \<times> jsstring) list" where
  \<comment> \<open>posts as pairs of title and body: all of them for the empty query, otherwise those
      whose lowercased title, one space and body contain the lowercased query\<close>
  "spec_searchedPosts toLowerCase ps q =
     (if q = [] then ps
      else filter (\<lambda>(t, b). sublist (toLowerCase q) (toLowerCase (t @ [0x20] @ b))) ps)"

definition post_of :: "jsstring \<times> jsstring \<Rightarrow> jsval" where
  "post_of = (\<lambda>(t, b). mkPost t b)"

section \<open>The shape of the stored posts\<close>

definition posts_shape :: "ui_state \<Rightarrow> bool" where
  \<comment> \<open>every element of the posts state, and of the archive it can be fed from, is a post\<close>
  "posts_shape u =
     (list_all isPost (posts (app u)) \<and> list_all isPost (archive_posts (archive u)))"

section \<open>Calls that leave the component state\<close>

text \<open>
  Two calls of the source act outside the \<open>useState\<close> values: \<open>handleSubmit\<close> calls
  \<open>e.preventDefault()\<close> before its guard, and the effect with the dependency \<open>isFakeDark\<close>
  toggles a class of the document element after a render in which that value has changed.
\<close>

datatype effect =
    PreventDefault
  | ClassListToggle string

definition effects :: "event \<Rightarrow> ui_state \<Rightarrow> effect list" where
  "effects e u =
     (if e = SubmitForm then [PreventDefault] else []) @
     (if isFakeDark (app (step e u)) \<noteq> isFakeDark (app u)
      then [ClassListToggle ''fake-dark-mode''] else [])"

section \<open>Properties of the string search and of the filter\<close>

lemma utf16_space: "utf16 '' '' = [0x20]"
  by (simp add: utf16_def)

lemma find_upt_None:
  "(find P [a ..< b] = None) = (\<forall>i. a \<le> i \<and> i < b \<longrightarrow> \<not> P i)"
  by (auto simp: find_None_iff)

lemma occurs_at_sublist:
  assumes "take (length v) (drop i s) = v"
  shows "sublist v s"
proof -
  have "s = take i s @ take (length v) (drop i s) @ drop (length v) (drop i s)"
    by (simp only: append_take_drop_id)
  with assms have "s = take i s @ v @ drop (length v) (drop i s)"
    by simp
  then show ?thesis
    unfolding sublist_def by blast
qed

lemma sublist_occurs_at:
  assumes "sublist v s"
  shows "\<exists>i. i < Suc (length s) - length v \<and> take (length v) (drop i s) = v"
proof -
  from assms obtain ps ss where s: "s = ps @ v @ ss"
    unfolding sublist_def by blast
  have "length ps < Suc (length s) - length v"
    by (simp add: s)
  moreover have "take (length v) (drop (length ps) s) = v"
    by (simp add: s)
  ultimately show ?thesis by blast
qed

lemma includes_js_sublist: "includes_js s v = sublist v s"
proof (cases "v = []")
  case True
  then show ?thesis
    by (simp add: includes_js_def StringIndexOf_def)
next
  case False
  show ?thesis
  proof
    assume "includes_js s v"
    with False obtain i where "take (length v) (drop i s) = v"
      by (auto simp: includes_js_def StringIndexOf_def find_upt_None)
    then show "sublist v s" by (rule occurs_at_sublist)
  next
    assume "sublist v s"
    from sublist_occurs_at [OF this] False show "includes_js s v"
      by (auto simp: includes_js_def StringIndexOf_def find_upt_None)
  qed
qed

lemma isPost_mkPost: "isPost (mkPost t b)"
  by (simp add: mkPost_def)

lemma isPost_imp_mkPost: "isPost p \<Longrightarrow> \<exists>t b. p = mkPost t b"
  by (induction p rule: isPost.induct) (simp_all add: mkPost_def)

lemma postText_mkPost: "postText (mkPost t b) = Inr (t @ [0x20] @ b)"
  by (simp add: postText_def mkPost_def utf16_space)

lemma filter_js_total:
  "(\<And>x. x \<in> set xs \<Longrightarrow> f x = Inr (g x)) \<Longrightarrow> filter_js f xs = Inr (filter g xs)"
  by (induction xs) simp_all

lemma filter_js_subseq: "filter_js f xs = Inr ys \<Longrightarrow> subseq ys xs"
proof (induction xs arbitrary: ys)
  case Nil
  then show ?case by simp
next
  case (Cons x xs)
  then show ?case
    by (auto split: sum.splits if_splits)
qed

lemma filter_js_defined:
  "(\<And>x. x \<in> set xs \<Longrightarrow> \<exists>b. f x = Inr b) \<Longrightarrow> \<exists>ys. filter_js f xs = Inr ys"
proof (induction xs)
  case Nil
  then show ?case by simp
next
  case (Cons x xs)
  from Cons.prems obtain b where b: "f x = Inr b" by auto
  from Cons obtain ys where ys: "filter_js f xs = Inr ys" by auto
  show ?case by (simp add: b ys)
qed

lemma post_list_of_pairs: "list_all isPost xs \<Longrightarrow> \<exists>ps. xs = map post_of ps"
proof (induction xs)
  case Nil
  then show ?case by simp
next
  case (Cons x xs)
  then obtain ps where ps: "xs = map post_of ps" by auto
  from Cons.prems have "isPost x" by simp
  then obtain t b where "x = mkPost t b"
    using isPost_imp_mkPost by blast
  then have "x # xs = map post_of ((t, b) # ps)"
    by (simp add: ps post_of_def)
  then show ?case by (rule exI)
qed

lemma createRandomPost_mkPost:
  "createRandomPost d = mkPost (adjective d @ [0x20] @ noun d) (phrase d)"
  by (simp add: createRandomPost_def mkPost_def utf16_space)

lemma isPost_createRandomPost: "isPost (createRandomPost d)"
  by (simp add: createRandomPost_mkPost isPost_mkPost)

lemma generated_shape: "list_all isPost (map (\<lambda>i. createRandomPost (faker i)) is)"
  by (simp add: list_all_iff isPost_createRandomPost)

lemma initialPosts_shape: "list_all isPost (initialPosts faker)"
  by (simp add: initialPosts_def generated_shape)

lemma init_shape: "posts_shape (init faker faker')"
  by (simp add: posts_shape_def init_def App_init_def Archive_init_def initialPosts_shape
        generated_shape)

lemma step_shape: "posts_shape u \<Longrightarrow> posts_shape (step e u)"
proof (cases e)
  case SubmitForm
  assume "posts_shape u"
  then show ?thesis
    by (simp add: SubmitForm posts_shape_def handleSubmit_def handleAddPost_def setPosts_def
          isPost_mkPost)
next
  case (ClickAddAsNewPost i)
  assume u: "posts_shape u"
  then have "i < length (archive_posts (archive u)) \<Longrightarrow> isPost (archive_posts (archive u) ! i)"
    by (simp add: posts_shape_def list_all_length)
  with u show ?thesis
    by (simp add: ClickAddAsNewPost posts_shape_def handleAddPost_def setPosts_def)
qed (simp_all add: posts_shape_def handleClearPosts_def setPosts_def setSearchQuery_def
       setIsFakeDark_def setShowArchive_def)

lemma fold_step_shape: "posts_shape u \<Longrightarrow> posts_shape (fold step es u)"
  by (induction es arbitrary: u) (simp_all add: step_shape)

lemma isFakeDark_step:
  "isFakeDark (app (step e u)) = (if e = ClickFakeDark then \<not> isFakeDark (app u) else isFakeDark (app u))"
  by (cases e)
     (simp_all add: setIsFakeDark_def setSearchQuery_def handleClearPosts_def setPosts_def
        handleSubmit_def handleAddPost_def)

lemma effects_by_event:
  "effects e u =
     (if e = SubmitForm then [PreventDefault]
      else if e = ClickFakeDark then [ClassListToggle ''fake-dark-mode''] else [])"
  by (simp add: effects_def isFakeDark_step)

lemma posts_step:
  "posts (app (step e u)) = posts (app u)
   \<or> posts (app (step e u)) = []
   \<or> (\<exists>p. posts (app (step e u)) = p # posts (app u)
        \<and> (p = mkPost (title (form u)) (body (form u))
           \<or> p \<in> set (archive_posts (archive u))))"
proof (cases e)
  case SubmitForm
  then show ?thesis
    by (simp add: handleSubmit_def handleAddPost_def setPosts_def)
next
  case (ClickAddAsNewPost i)
  then show ?thesis
    by (simp add: handleAddPost_def setPosts_def)
qed (simp_all add: handleClearPosts_def setPosts_def setSearchQuery_def setIsFakeDark_def)

lemma archive_posts_step: "archive_posts (archive (step e u)) = archive_posts (archive u)"
  by (cases e) (simp_all add: setShowArchive_def handleSubmit_def split: prod.splits)

lemma archive_posts_fold: "archive_posts (archive (fold step es u)) = archive_posts (archive u)"
  by (induction es arbitrary: u) (simp_all add: archive_posts_step)

lemma posts_step_origin:
  assumes "p \<in> set (posts (app (step e u)))"
  shows "p \<in> set (posts (app u)) \<or> p \<in> set (archive_posts (archive u))
         \<or> (\<exists>t b. p = mkPost t b)"
  using posts_step [of e u] assms by (elim disjE exE conjE) (simp_all, blast+)

lemma posts_fold_origin:
  "p \<in> set (posts (app (fold step es u))) \<Longrightarrow>
   p \<in> set (posts (app u)) \<or> p \<in> set (archive_posts (archive u)) \<or> (\<exists>t b. p = mkPost t b)"
proof (induction es arbitrary: u)
  case Nil
  then show ?case by simp
next
  case (Cons e es)
  then have "p \<in> set (posts (app (fold step es (step e u))))" by simp
  from Cons.IH [OF this]
  have "p \<in> set (posts (app (step e u))) \<or> p \<in> set (archive_posts (archive u))
        \<or> (\<exists>t b. p = mkPost t b)"
    by (simp add: archive_posts_step)
  then show ?case
    using posts_step_origin [of p e u] by blast
qed

section \<open>The derived list: what it contains\<close>

text \<open>
  Claim C1. For every list of posts and every search query, \<open>searchedPosts\<close> is the list
  itself when the query is empty, and otherwise the posts, in their order, whose lowercased
  title, single space and body contain the lowercased query as a substring. The posts are
  given by their title and body; \<open>post_of\<close> builds the object the array holds, and every
  list of posts is built this way.
\<close>

theorem searchedPosts_refines_spec:
  "searchedPosts toLowerCase (map post_of ps) q =
     Inr (map post_of (spec_searchedPosts toLowerCase ps q))"
proof (cases "q = []")
  case True
  then show ?thesis
    by (simp add: searchedPosts_def spec_searchedPosts_def)
next
  case False
  let ?f = "\<lambda>post. case postText post of Inl e \<Rightarrow> Inl e
                | Inr s \<Rightarrow> Inr (includes_js (toLowerCase s) (toLowerCase q))"
  let ?g = "\<lambda>post. case postText post of Inl e \<Rightarrow> False
                | Inr s \<Rightarrow> sublist (toLowerCase q) (toLowerCase s)"
  have "filter_js ?f (map post_of ps) = Inr (filter ?g (map post_of ps))"
  proof (rule filter_js_total)
    fix x assume "x \<in> set (map post_of ps)"
    then obtain t b where "x = mkPost t b"
      by (auto simp: post_of_def)
    then show "?f x = Inr (?g x)"
      by (simp add: postText_mkPost includes_js_sublist)
  qed
  moreover have "filter ?g (map post_of ps) =
      map post_of (filter (\<lambda>(t, b). sublist (toLowerCase q) (toLowerCase (t @ [0x20] @ b))) ps)"
    by (simp add: filter_map comp_def post_of_def split_def postText_mkPost)
  ultimately show ?thesis
    using False by (simp add: searchedPosts_def spec_searchedPosts_def)
qed

theorem searchedPosts_refines_spec_witness:
  "searchedPosts toLowerCaseASCII
     [mkPost (utf16 ''Foo'') (utf16 ''bar''), mkPost (utf16 ''x'') (utf16 ''y'')] (utf16 ''O B'')
   = Inr [mkPost (utf16 ''Foo'') (utf16 ''bar'')]"
proof -
  have "spec_searchedPosts toLowerCaseASCII
          [(utf16 ''Foo'', utf16 ''bar''), (utf16 ''x'', utf16 ''y'')] (utf16 ''O B'')
        = [(utf16 ''Foo'', utf16 ''bar'')]"
    by code_simp
  then show ?thesis
    using searchedPosts_refines_spec [of toLowerCaseASCII
      "[(utf16 ''Foo'', utf16 ''bar''), (utf16 ''x'', utf16 ''y'')]" "utf16 ''O B''"]
    by (simp add: post_of_def)
qed

text \<open>
  Claim C2. The list handed to the view is a function of the posts list and the search
  query alone: two states of the page that agree on these two give the same result,
  whatever their dark-mode flag, form fields and archive are.
\<close>

theorem displayed_pure:
  "posts (app u) = posts (app u') \<Longrightarrow> searchQuery (app u) = searchQuery (app u') \<Longrightarrow>
   displayed toLowerCase u = displayed toLowerCase u'"
  by (simp add: displayed_def)

theorem displayed_pure_witness:
  "isFakeDark (app
     \<lparr>app = \<lparr>posts = [mkPost (utf16 ''Foo'') (utf16 ''bar'')], searchQuery = utf16 ''fo'',
             isFakeDark = False\<rparr>,
      form = \<lparr>title = [], body = []\<rparr>,
      archive = \<lparr>archive_posts = [], showArchive = False\<rparr>\<rparr>)
   \<noteq> isFakeDark (app
     \<lparr>app = \<lparr>posts = [mkPost (utf16 ''Foo'') (utf16 ''bar'')], searchQuery = utf16 ''fo'',
             isFakeDark = True\<rparr>,
      form = \<lparr>title = utf16 ''t'', body = []\<rparr>,
      archive = \<lparr>archive_posts = [mkPost (utf16 ''a'') (utf16 ''b'')], showArchive = True\<rparr>\<rparr>)
   \<and> displayed toLowerCaseASCII
     \<lparr>app = \<lparr>posts = [mkPost (utf16 ''Foo'') (utf16 ''bar'')], searchQuery = utf16 ''fo'',
             isFakeDark = False\<rparr>,
      form = \<lparr>title = [], body = []\<rparr>,
      archive = \<lparr>archive_posts = [], showArchive = False\<rparr>\<rparr>
   = displayed toLowerCaseASCII
     \<lparr>app = \<lparr>posts = [mkPost (utf16 ''Foo'') (utf16 ''bar'')], searchQuery = utf16 ''fo'',
             isFakeDark = True\<rparr>,
      form = \<lparr>title = utf16 ''t'', body = []\<rparr>,
      archive = \<lparr>archive_posts = [mkPost (utf16 ''a'') (utf16 ''b'')], showArchive = True\<rparr>\<rparr>"
  using displayed_pure [of
     "\<lparr>app = \<lparr>posts = [mkPost (utf16 ''Foo'') (utf16 ''bar'')], searchQuery = utf16 ''fo'',
             isFakeDark = False\<rparr>,
      form = \<lparr>title = [], body = []\<rparr>,
      archive = \<lparr>archive_posts = [], showArchive = False\<rparr>\<rparr>"
     "\<lparr>app = \<lparr>posts = [mkPost (utf16 ''Foo'') (utf16 ''bar'')], searchQuery = utf16 ''fo'',
             isFakeDark = True\<rparr>,
      form = \<lparr>title = utf16 ''t'', body = []\<rparr>,
      archive = \<lparr>archive_posts = [mkPost (utf16 ''a'') (utf16 ''b'')], showArchive = True\<rparr>\<rparr>"
     toLowerCaseASCII]
  by simp

section \<open>The handlers\<close>

text \<open>
  Claim C3, as the code has it. Adding a post puts it at the front of the list: after
  \<open>handleAddPost p\<close> the posts list is \<open>p\<close> followed by the old list, whose posts are
  unchanged and keep their order.
\<close>

theorem handleAddPost_at_front:
  "posts (handleAddPost p s) = p # posts s"
  by (simp add: handleAddPost_def setPosts_def)

theorem handleAddPost_at_front_witness:
  "posts (handleAddPost (mkPost (utf16 ''new'') (utf16 ''n''))
       \<lparr>posts = [mkPost (utf16 ''old'') (utf16 ''o'')], searchQuery = [], isFakeDark = False\<rparr>)
   = [mkPost (utf16 ''new'') (utf16 ''n''), mkPost (utf16 ''old'') (utf16 ''o'')]"
  using handleAddPost_at_front [of "mkPost (utf16 ''new'') (utf16 ''n'')"
       "\<lparr>posts = [mkPost (utf16 ''old'') (utf16 ''o'')], searchQuery = [], isFakeDark = False\<rparr>"]
  by simp

text \<open>
  The claim as written puts the new post at the end. On a list of one post the result
  is not the old list followed by the new post.
\<close>

theorem handleAddPost_at_end_counterexample:
  "posts (handleAddPost (mkPost (utf16 ''new'') (utf16 ''n''))
       \<lparr>posts = [mkPost (utf16 ''old'') (utf16 ''o'')], searchQuery = [], isFakeDark = False\<rparr>)
   \<noteq> posts \<lparr>posts = [mkPost (utf16 ''old'') (utf16 ''o'')], searchQuery = [], isFakeDark = False\<rparr>
       @ [mkPost (utf16 ''new'') (utf16 ''n'')]"
  by (simp add: handleAddPost_def setPosts_def mkPost_def utf16_def)

text \<open>
  Claim C4. Every element of the posts state is a flat record with exactly the two string
  fields \<open>title\<close> and \<open>body\<close>: the generated initial list has this shape, every event of the
  page (submitting the form, adding from the archive, clearing, and the rest) keeps it, and
  so it holds after every sequence of events from the initial state.
\<close>

theorem posts_shape_invariant:
  "list_all isPost (initialPosts faker)
   \<and> (posts_shape u \<longrightarrow> posts_shape (step e u))
   \<and> posts_shape (run es (init faker faker'))"
  by (simp add: initialPosts_shape step_shape run_def fold_step_shape init_shape)

theorem posts_shape_invariant_witness:
  "posts_shape
     \<lparr>app = \<lparr>posts = [mkPost (utf16 ''Foo'') (utf16 ''bar'')], searchQuery = [],
             isFakeDark = False\<rparr>,
      form = \<lparr>title = utf16 ''t'', body = utf16 ''b''\<rparr>,
      archive = \<lparr>archive_posts = [mkPost (utf16 ''a'') (utf16 ''b'')], showArchive = True\<rparr>\<rparr>
   \<and> posts_shape (step SubmitForm
     \<lparr>app = \<lparr>posts = [mkPost (utf16 ''Foo'') (utf16 ''bar'')], searchQuery = [],
             isFakeDark = False\<rparr>,
      form = \<lparr>title = utf16 ''t'', body = utf16 ''b''\<rparr>,
      archive = \<lparr>archive_posts = [mkPost (utf16 ''a'') (utf16 ''b'')], showArchive = True\<rparr>\<rparr>)
   \<and> posts (app (step SubmitForm
     \<lparr>app = \<lparr>posts = [mkPost (utf16 ''Foo'') (utf16 ''bar'')], searchQuery = [],
             isFakeDark = False\<rparr>,
      form = \<lparr>title = utf16 ''t'', body = utf16 ''b''\<rparr>,
      archive = \<lparr>archive_posts = [mkPost (utf16 ''a'') (utf16 ''b'')], showArchive = True\<rparr>\<rparr>))
     = [mkPost (utf16 ''t'') (utf16 ''b''), mkPost (utf16 ''Foo'') (utf16 ''bar'')]"
proof -
  let ?u = "\<lparr>app = \<lparr>posts = [mkPost (utf16 ''Foo'') (utf16 ''bar'')], searchQuery = [],
             isFakeDark = False\<rparr>,
      form = \<lparr>title = utf16 ''t'', body = utf16 ''b''\<rparr>,
      archive = \<lparr>archive_posts = [mkPost (utf16 ''a'') (utf16 ''b'')], showArchive = True\<rparr>\<rparr>"
  have h: "posts_shape ?u"
    by (simp add: posts_shape_def isPost_mkPost)
  have e: "posts (app (step SubmitForm ?u))
      = [mkPost (utf16 ''t'') (utf16 ''b''), mkPost (utf16 ''Foo'') (utf16 ''bar'')]"
    by (simp add: handleSubmit_def handleAddPost_def setPosts_def utf16_def)
  from h e show ?thesis
    using posts_shape_invariant [of _ ?u SubmitForm] by blast
qed

text \<open>
  Claim C5. The dark-mode button toggles a boolean: one click sets \<open>isFakeDark\<close> to its
  negation, and two clicks in a row restore the value (and the whole state).
\<close>

theorem ClickFakeDark_toggles:
  "isFakeDark (app (step ClickFakeDark u)) = (\<not> isFakeDark (app u))
   \<and> isFakeDark (app (step ClickFakeDark (step ClickFakeDark u))) = isFakeDark (app u)
   \<and> step ClickFakeDark (step ClickFakeDark u) = u"
  by (simp add: setIsFakeDark_def)

text \<open>
  Claim C6. Each state update touches its own piece of state only: \<open>handleAddPost\<close> and
  \<open>handleClearPosts\<close> leave \<open>searchQuery\<close> and \<open>isFakeDark\<close> as they are, setting the search
  query leaves the stored posts and \<open>isFakeDark\<close> as they are, and on the page these events
  leave the form and the archive alone. The calls that leave the component state are the
  same in every state of the page, so no post reaches them.
\<close>

theorem handlers_frame:
  fixes s :: app_state
  shows
  "searchQuery (handleAddPost p s) = searchQuery s \<and> isFakeDark (handleAddPost p s) = isFakeDark s
   \<and> searchQuery (handleClearPosts s) = searchQuery s \<and> isFakeDark (handleClearPosts s) = isFakeDark s
   \<and> posts (setSearchQuery q s) = posts s \<and> isFakeDark (setSearchQuery q s) = isFakeDark s
   \<and> form (step ClickClearPosts u) = form u \<and> archive (step ClickClearPosts u) = archive u
   \<and> form (step (ChangeSearch q) u) = form u \<and> archive (step (ChangeSearch q) u) = archive u
   \<and> form (step (ClickAddAsNewPost i) u) = form u
   \<and> archive (step (ClickAddAsNewPost i) u) = archive u
   \<and> searchQuery (app (step SubmitForm u)) = searchQuery (app u)
   \<and> isFakeDark (app (step SubmitForm u)) = isFakeDark (app u)
   \<and> archive (step SubmitForm u) = archive u
   \<and> effects e u = effects e u'
   \<and> set (effects e u) \<subseteq> {PreventDefault, ClassListToggle ''fake-dark-mode''}"
proof -
  have own_state:
    "searchQuery (handleAddPost p s) = searchQuery s" "isFakeDark (handleAddPost p s) = isFakeDark s"
    "searchQuery (handleClearPosts s) = searchQuery s" "isFakeDark (handleClearPosts s) = isFakeDark s"
    "posts (setSearchQuery q s) = posts s" "isFakeDark (setSearchQuery q s) = isFakeDark s"
    by (simp_all add: handleAddPost_def handleClearPosts_def setPosts_def setSearchQuery_def)
  have page:
    "form (step ClickClearPosts u) = form u" "archive (step ClickClearPosts u) = archive u"
    "form (step (ChangeSearch q) u) = form u" "archive (step (ChangeSearch q) u) = archive u"
    "form (step (ClickAddAsNewPost i) u) = form u"
    "archive (step (ClickAddAsNewPost i) u) = archive u"
    by simp_all
  have submit:
    "searchQuery (app (step SubmitForm u)) = searchQuery (app u)"
    "isFakeDark (app (step SubmitForm u)) = isFakeDark (app u)"
    "archive (step SubmitForm u) = archive u"
    by (simp_all add: handleSubmit_def handleAddPost_def setPosts_def)
  have same: "effects e u = effects e u'"
    by (simp add: effects_by_event)
  have range: "set (effects e u) \<subseteq> {PreventDefault, ClassListToggle ''fake-dark-mode''}"
    by (auto simp: effects_by_event)
  from own_state page submit same range show ?thesis
    by blast
qed

section \<open>Initial state\<close>

text \<open>
  Claim C7. The initial posts state, of \<open>App\<close> and of \<open>PostProvider\<close> alike, is a list of
  exactly 30 records; the record at index \<open>i\<close> is what \<open>createRandomPost\<close> made of the
  \<open>i\<close>-th draw: a title of the adjective, a space and the noun, and the phrase as body.
  The page starts with this list, and the list is generated once: an event leaves the posts
  as they are, empties them, or puts the form's post or a post of the archive in front; the
  archive's own generated list never changes; so after any sequence of events every post is
  one of the 30 initial records, one of the archive's records, or a record made of a title
  and a body.
\<close>

theorem initial_posts:
  "length (posts (App_init faker)) = 30
   \<and> length (posts (PostProvider_init faker)) = 30
   \<and> (\<forall>i<30. posts (App_init faker) ! i = createRandomPost (faker i)
            \<and> posts (PostProvider_init faker) ! i = createRandomPost (faker i))
   \<and> createRandomPost d = mkPost (adjective d @ [0x20] @ noun d) (phrase d)
   \<and> posts (app (init faker faker')) = posts (App_init faker)
   \<and> (posts (app (step e u)) = posts (app u)
      \<or> posts (app (step e u)) = []
      \<or> (\<exists>p. posts (app (step e u)) = p # posts (app u)
           \<and> (p = mkPost (title (form u)) (body (form u))
              \<or> p \<in> set (archive_posts (archive u)))))
   \<and> archive_posts (archive (step e u)) = archive_posts (archive u)
   \<and> archive_posts (archive (run es (init faker faker')))
       = map (\<lambda>i. createRandomPost (faker' i)) [0 ..< 30000]
   \<and> (\<forall>p \<in> set (posts (app (run es (init faker faker')))).
         (\<exists>i<30. p = createRandomPost (faker i))
         \<or> (\<exists>i<30000. p = createRandomPost (faker' i))
         \<or> (\<exists>t b. p = mkPost t b))"
proof -
  have start:
    "length (posts (App_init faker)) = 30" "length (posts (PostProvider_init faker)) = 30"
    "\<forall>i<30. posts (App_init faker) ! i = createRandomPost (faker i)
            \<and> posts (PostProvider_init faker) ! i = createRandomPost (faker i)"
    "posts (app (init faker faker')) = posts (App_init faker)"
    by (simp_all add: App_init_def PostProvider_init_def initialPosts_def init_def)
  have arch: "archive_posts (archive (run es (init faker faker')))
       = map (\<lambda>i. createRandomPost (faker' i)) [0 ..< 30000]"
    by (simp add: run_def archive_posts_fold init_def Archive_init_def)
  have origin: "\<forall>p \<in> set (posts (app (run es (init faker faker')))).
         (\<exists>i<30. p = createRandomPost (faker i))
         \<or> (\<exists>i<30000. p = createRandomPost (faker' i))
         \<or> (\<exists>t b. p = mkPost t b)"
  proof
    fix p assume "p \<in> set (posts (app (run es (init faker faker'))))"
    then have "p \<in> set (posts (app (init faker faker')))
        \<or> p \<in> set (archive_posts (archive (init faker faker'))) \<or> (\<exists>t b. p = mkPost t b)"
      unfolding run_def by (rule posts_fold_origin)
    moreover have "p \<in> set (posts (app (init faker faker')))
        \<Longrightarrow> \<exists>i<30. p = createRandomPost (faker i)"
      by (auto simp: init_def App_init_def initialPosts_def)
    moreover have "p \<in> set (archive_posts (archive (init faker faker')))
        \<Longrightarrow> \<exists>i<30000. p = createRandomPost (faker' i)"
      by (auto simp: init_def Archive_init_def)
    ultimately show "(\<exists>i<30. p = createRandomPost (faker i))
         \<or> (\<exists>i<30000. p = createRandomPost (faker' i))
         \<or> (\<exists>t b. p = mkPost t b)"
      by blast
  qed
  from start createRandomPost_mkPost [of d] posts_step [of e u] archive_posts_step [of e u]
    arch origin
  show ?thesis by blast
qed

theorem initial_posts_witness:
  "(29::nat) < 30
   \<and> posts (App_init (\<lambda>i. \<lparr>adjective = utf16 ''neural'', noun = utf16 ''pixel'',
                             phrase = [word_of_nat i]\<rparr>)) ! 29
     = mkPost (utf16 ''neural pixel'') [29]
   \<and> mkPost (utf16 ''t'') (utf16 ''b'')
       \<in> set (posts (app (run [ClickClearPosts, ChangeTitle (utf16 ''t''), ChangeBody (utf16 ''b''),
                                SubmitForm, ClickFakeDark]
            (init (\<lambda>i. \<lparr>adjective = utf16 ''neural'', noun = utf16 ''pixel'',
                         phrase = [word_of_nat i]\<rparr>)
                  (\<lambda>i. \<lparr>adjective = utf16 ''neural'', noun = utf16 ''pixel'',
                         phrase = [word_of_nat i]\<rparr>)))))
   \<and> posts (app (run [ClickClearPosts, ChangeTitle (utf16 ''t''), ChangeBody (utf16 ''b''),
                       SubmitForm, ClickFakeDark]
            (init (\<lambda>i. \<lparr>adjective = utf16 ''neural'', noun = utf16 ''pixel'',
                         phrase = [word_of_nat i]\<rparr>)
                  (\<lambda>i. \<lparr>adjective = utf16 ''neural'', noun = utf16 ''pixel'',
                         phrase = [word_of_nat i]\<rparr>))))
     = [mkPost (utf16 ''t'') (utf16 ''b'')]"
proof -
  let ?F = "\<lambda>i::nat. \<lparr>adjective = utf16 ''neural'', noun = utf16 ''pixel'',
              phrase = [word_of_nat i :: 16 word]\<rparr>"
  let ?es = "[ClickClearPosts, ChangeTitle (utf16 ''t''), ChangeBody (utf16 ''b''),
              SubmitForm, ClickFakeDark]"
  have c: "createRandomPost (?F 29) = mkPost (utf16 ''neural pixel'') [29]"
    by (simp add: createRandomPost_def mkPost_def utf16_def)
  have r: "posts (app (run ?es (init ?F ?F))) = [mkPost (utf16 ''t'') (utf16 ''b'')]"
    by (simp add: run_def init_def App_init_def FormAddPost_init_def handleClearPosts_def
          setPosts_def setTitle_def setBody_def handleSubmit_def handleAddPost_def
          setIsFakeDark_def utf16_def)
  from c r show ?thesis
    using initial_posts [of ?F _ ?F ClickFakeDark "init ?F ?F" ?es]
    by simp
qed

section \<open>The context hook and the form\<close>

text \<open>
  Claim C8. \<open>usePosts\<close> throws exactly when the context value is \<open>undefined\<close>, and the error
  is then the one with the message about the provider; otherwise it returns the context
  value. The value \<open>PostProvider\<close> provides holds the filtered posts, the two handlers,
  the search query and its setter.
\<close>

theorem usePosts_spec:
  "((\<exists>e. usePosts c = Inl e) = (c = None))
   \<and> ((usePosts c = Inl (Error ''PostContext was used outside of the PostProvider'')) = (c = None))
   \<and> (\<forall>v. c = Some v \<longrightarrow> usePosts c = Inr v)
   \<and> (\<forall>v. PostProvider_value toLowerCase s = Inr v \<longrightarrow>
         usePosts (Some v) = Inr v
         \<and> searchedPosts toLowerCase (posts s) (searchQuery s) = Inr (ctx_posts v)
         \<and> onAddPost v = handleAddPost \<and> onClearPosts v = handleClearPosts
         \<and> ctx_searchQuery v = searchQuery s \<and> ctx_setSearchQuery v = setSearchQuery)"
  by (auto simp: usePosts_def PostProvider_value_def split: option.splits sum.splits)

theorem usePosts_spec_witness:
  "usePosts (None :: context_value option)
     = Inl (Error ''PostContext was used outside of the PostProvider'')
   \<and> PostProvider_value toLowerCaseASCII
        \<lparr>posts = [mkPost (utf16 ''Foo'') (utf16 ''bar'')], searchQuery = utf16 ''x''\<rparr>
      = Inr \<lparr>ctx_posts = [], onAddPost = handleAddPost, onClearPosts = handleClearPosts,
               ctx_searchQuery = utf16 ''x'', ctx_setSearchQuery = setSearchQuery\<rparr>
   \<and> usePosts (Some \<lparr>ctx_posts = [], onAddPost = handleAddPost, onClearPosts = handleClearPosts,
               ctx_searchQuery = utf16 ''x'', ctx_setSearchQuery = setSearchQuery\<rparr>)
      = Inr \<lparr>ctx_posts = [], onAddPost = handleAddPost, onClearPosts = handleClearPosts,
               ctx_searchQuery = utf16 ''x'', ctx_setSearchQuery = setSearchQuery\<rparr>"
proof -
  have s: "searchedPosts toLowerCaseASCII [mkPost (utf16 ''Foo'') (utf16 ''bar'')] (utf16 ''x'')
             = Inr []"
    by code_simp
  have v: "PostProvider_value toLowerCaseASCII
        \<lparr>posts = [mkPost (utf16 ''Foo'') (utf16 ''bar'')], searchQuery = utf16 ''x''\<rparr>
      = Inr \<lparr>ctx_posts = [], onAddPost = handleAddPost, onClearPosts = handleClearPosts,
               ctx_searchQuery = utf16 ''x'', ctx_setSearchQuery = setSearchQuery\<rparr>"
    by (simp add: PostProvider_value_def s)
  show ?thesis
    using v usePosts_spec [of "None :: context_value option" toLowerCaseASCII
        "\<lparr>posts = [mkPost (utf16 ''Foo'') (utf16 ''bar'')], searchQuery = utf16 ''x''\<rparr>"]
    by simp
qed

text \<open>
  Claim C9. Submitting the form with an empty title or an empty body adds no post and
  leaves both fields as they are; with both non-empty it calls \<open>onAddPost\<close> on exactly the
  record of the title and the body, and resets both fields to the empty string. On the
  page, where \<open>onAddPost\<close> is \<open>handleAddPost\<close>, the first case leaves the whole state unchanged.
\<close>

theorem handleSubmit_spec:
  "(title f = [] \<or> body f = [] \<longrightarrow> handleSubmit onAddPost' (f, p) = (f, p))
   \<and> (title f \<noteq> [] \<and> body f \<noteq> [] \<longrightarrow>
        handleSubmit onAddPost' (f, p)
          = (\<lparr>title = [], body = []\<rparr>, onAddPost' (mkPost (title f) (body f)) p))
   \<and> (title (form u) = [] \<or> body (form u) = [] \<longrightarrow> step SubmitForm u = u)
   \<and> (title (form u) \<noteq> [] \<and> body (form u) \<noteq> [] \<longrightarrow>
        step SubmitForm u
          = u\<lparr>app := handleAddPost (mkPost (title (form u)) (body (form u))) (app u),
               form := \<lparr>title = [], body = []\<rparr>\<rparr>)"
  by (auto simp: handleSubmit_def setTitle_def setBody_def)

theorem handleSubmit_spec_witness:
  "handleSubmit handleAddPost
     (\<lparr>title = utf16 ''t'', body = []\<rparr>, \<lparr>posts = [], searchQuery = []\<rparr>)
     = (\<lparr>title = utf16 ''t'', body = []\<rparr>, \<lparr>posts = [], searchQuery = []\<rparr>)
   \<and> handleSubmit handleAddPost
     (\<lparr>title = utf16 ''t'', body = utf16 ''b''\<rparr>, \<lparr>posts = [], searchQuery = []\<rparr>)
     = (\<lparr>title = [], body = []\<rparr>,
        \<lparr>posts = [mkPost (utf16 ''t'') (utf16 ''b'')], searchQuery = []\<rparr>)"
  using handleSubmit_spec [of "\<lparr>title = utf16 ''t'', body = []\<rparr>" handleAddPost
          "\<lparr>posts = [], searchQuery = []\<rparr>"]
        handleSubmit_spec [of "\<lparr>title = utf16 ''t'', body = utf16 ''b''\<rparr>" handleAddPost
          "\<lparr>posts = [], searchQuery = []\<rparr>"]
  by (simp add: utf16_def handleAddPost_def setPosts_def)

section \<open>The derived list: how it sits in the stored list\<close>

text \<open>
  Claim C10. Whenever the filter returns, its result is a subsequence of the stored list:
  its elements occur in the list, in the same relative order, and it is no longer than the
  list. On a list of posts the filter does return, for every query.
\<close>

theorem searchedPosts_subseq:
  "(\<forall>r. searchedPosts toLowerCase ps q = Inr r \<longrightarrow>
        subseq r ps \<and> set r \<subseteq> set ps \<and> length r \<le> length ps)
   \<and> (list_all isPost ps \<longrightarrow> (\<exists>r. searchedPosts toLowerCase ps q = Inr r))"
proof (intro conjI allI impI)
  fix r assume r: "searchedPosts toLowerCase ps q = Inr r"
  then show s: "subseq r ps"
    by (auto simp: searchedPosts_def split: if_splits dest: filter_js_subseq)
  from s show "set r \<subseteq> set ps"
    by (auto elim: list_emb_set)
  from s show "length r \<le> length ps"
    by (rule list_emb_length)
next
  assume "list_all isPost ps"
  show "\<exists>r. searchedPosts toLowerCase ps q = Inr r"
  proof (cases "q = []")
    case True
    then show ?thesis by (simp add: searchedPosts_def)
  next
    case False
    have "\<exists>ys. filter_js (\<lambda>post. case postText post of Inl e \<Rightarrow> Inl e
                | Inr s \<Rightarrow> Inr (includes_js (toLowerCase s) (toLowerCase q))) ps = Inr ys"
    proof (rule filter_js_defined)
      fix x assume "x \<in> set ps"
      with \<open>list_all isPost ps\<close> have "isPost x"
        by (simp add: list_all_iff)
      then obtain t b where "x = mkPost t b"
        using isPost_imp_mkPost by blast
      then show "\<exists>b. (case postText x of Inl e \<Rightarrow> Inl e
                | Inr s \<Rightarrow> Inr (includes_js (toLowerCase s) (toLowerCase q))) = Inr b"
        by (simp add: postText_mkPost)
    qed
    with False show ?thesis by (simp add: searchedPosts_def)
  qed
qed

theorem searchedPosts_subseq_witness:
  "list_all isPost [mkPost (utf16 ''Foo'') (utf16 ''bar''), mkPost (utf16 ''x'') (utf16 ''y'')]
   \<and> searchedPosts toLowerCaseASCII
        [mkPost (utf16 ''Foo'') (utf16 ''bar''), mkPost (utf16 ''x'') (utf16 ''y'')] (utf16 ''Y'')
      = Inr [mkPost (utf16 ''x'') (utf16 ''y'')]
   \<and> subseq [mkPost (utf16 ''x'') (utf16 ''y'')]
        [mkPost (utf16 ''Foo'') (utf16 ''bar''), mkPost (utf16 ''x'') (utf16 ''y'')]"
proof -
  have p: "list_all isPost [mkPost (utf16 ''Foo'') (utf16 ''bar''), mkPost (utf16 ''x'') (utf16 ''y'')]"
    by (simp add: isPost_mkPost)
  have e: "searchedPosts toLowerCaseASCII
        [mkPost (utf16 ''Foo'') (utf16 ''bar''), mkPost (utf16 ''x'') (utf16 ''y'')] (utf16 ''Y'')
      = Inr [mkPost (utf16 ''x'') (utf16 ''y'')]"
    by code_simp
  from p e show ?thesis
    using searchedPosts_subseq [of toLowerCaseASCII
      "[mkPost (utf16 ''Foo'') (utf16 ''bar''), mkPost (utf16 ''x'') (utf16 ''y'')]" "utf16 ''Y''"]
    by blast
qed

end
